theory Spec2Isabelle
  imports Complex_Main "HOL-Library.Multiset"
begin

section \<open>Numeric model\<close>

text \<open>
  The notebook computes on numpy arrays of IEEE floating-point numbers. A finite array
  element is a real number. What numpy returns where the real result does not exist is
  modelled: a division by zero does not raise, it gives an infinity (or not-a-number
  for \<open>0 / 0\<close>) and a warning, and these values go on through the arithmetic that
  follows. The operations \<open>np_add\<close> and \<open>np_divide\<close> give the exact result of a finite
  operation; the rounding of a result to single precision, the format of the
  classifier's outputs and of the weights computed from them, is \<open>round32\<close> below. The
  sign of zero is not modelled.
\<close>

datatype npfloat = Fin real | PInf | NInf | NaN


text \<open>\<^verbatim>\<open>a / b\<close> on array elements. Nothing guards the divisor.\<close>

fun np_divide :: "npfloat \<Rightarrow> npfloat \<Rightarrow> npfloat" where
  "np_divide (Fin a) (Fin b) =
     (if b = 0 then (if a = 0 then NaN else if 0 < a then PInf else NInf)
      else Fin (a / b))"
| "np_divide NaN _ = NaN"
| "np_divide _ NaN = NaN"
| "np_divide (Fin a) PInf = Fin 0"
| "np_divide (Fin a) NInf = Fin 0"
| "np_divide PInf (Fin b) = (if 0 \<le> b then PInf else NInf)"
| "np_divide NInf (Fin b) = (if 0 \<le> b then NInf else PInf)"
| "np_divide PInf PInf = NaN"
| "np_divide PInf NInf = NaN"
| "np_divide NInf PInf = NaN"
| "np_divide NInf NInf = NaN"


subsection \<open>Single precision\<close>

text \<open>
  A binary32 number is \<open>m * 2\<^sup>k\<close> with an integer \<open>m\<close> of magnitude below \<open>2\<^sup>2\<^sup>4\<close> and
  \<open>- 149 \<le> k \<le> 104\<close>. An operation returns its exact result rounded to the nearest
  such number, a tie going to the even \<open>m\<close>; a result whose rounding reaches \<open>2\<^sup>1\<^sup>2\<^sup>8\<close>
  in magnitude overflows to an infinity.
\<close>

text \<open>The nearest integer, a tie going to the even one.\<close>

definition rne :: "real \<Rightarrow> int" where
  "rne q = (let f = \<lfloor>q\<rfloor>; r = q - of_int f
            in if r < 1/2 then f else if 1/2 < r then f + 1 else if even f then f else f + 1)"

text \<open>
  The exponent \<open>k\<close> of the spacing \<open>2\<^sup>k\<close> of the binary32 numbers around \<open>x\<close>: 24
  significant bits, and the fixed spacing \<open>2\<^sup>-\<^sup>1\<^sup>4\<^sup>9\<close> of the subnormal numbers.
\<close>

definition ulp_exp :: "real \<Rightarrow> int" where
  "ulp_exp x = max (\<lfloor>log 2 \<bar>x\<bar>\<rfloor> - 23) (- 149)"

definition round_value :: "real \<Rightarrow> real" where
  "round_value x = of_int (rne (x / 2 powi ulp_exp x)) * 2 powi ulp_exp x"

definition round32 :: "real \<Rightarrow> npfloat" where
  "round32 x =
     (if x = 0 then Fin 0
      else let v = round_value x
           in if 2 ^ 128 \<le> \<bar>v\<bar> then (if 0 < v then PInf else NInf) else Fin v)"

text \<open>The rounding of an array element; an infinity or a not-a-number stays as it is.\<close>

fun f32 :: "npfloat \<Rightarrow> npfloat" where
  "f32 (Fin r) = round32 r"
| "f32 PInf = PInf"
| "f32 NInf = NInf"
| "f32 NaN = NaN"

text \<open>The real numbers that are binary32 numbers.\<close>

definition is_f32 :: "real \<Rightarrow> bool" where
  "is_f32 x \<longleftrightarrow> round32 x = Fin x"

section \<open>The generator\<close>

text \<open>
  \<^verbatim>\<open>model.sample(NSAMPLE).numpy()\<close> returns \<open>NSAMPLE\<close> random values. The outcome of
  the random draw is an input of the model: a function from the position in the array
  to the value drawn there.
\<close>

definition sample_draws :: "(nat \<Rightarrow> real) \<Rightarrow> nat \<Rightarrow> real list" where
  "sample_draws draw NSAMPLE = map draw [0..<NSAMPLE]"

text \<open>The four arrays the notebook holds in its global variables.\<close>

record vars =
  data_var1 :: "real list"
  data_var2 :: "real list"
  mc_var1 :: "real list"
  mc_var2 :: "real list"

text \<open>
  \<^verbatim>\<open>
  data_var1 = data_model_var1.sample(NSAMPLE).numpy()
  data_var2 = data_model_var2.sample(NSAMPLE).numpy()
  mc_var1 = mc_model_var1.sample(NSAMPLE).numpy()
  mc_var2 = mc_model_var2.sample(NSAMPLE).numpy()
  \<close>
\<close>

definition generate ::
  "nat \<Rightarrow> (nat \<Rightarrow> real) \<Rightarrow> (nat \<Rightarrow> real) \<Rightarrow> (nat \<Rightarrow> real) \<Rightarrow> (nat \<Rightarrow> real) \<Rightarrow> vars" where
  "generate NSAMPLE d1 d2 m1 m2 =
     \<lparr>data_var1 = sample_draws d1 NSAMPLE, data_var2 = sample_draws d2 NSAMPLE,
      mc_var1 = sample_draws m1 NSAMPLE, mc_var2 = sample_draws m2 NSAMPLE\<rparr>"

text \<open>\<^verbatim>\<open>c * xs\<close> and \<^verbatim>\<open>xs + ys\<close> on arrays, element by element.\<close>

definition np_scale :: "real \<Rightarrow> real list \<Rightarrow> real list" where
  "np_scale c xs = map (\<lambda>x. c * x) xs"

definition np_plus :: "real list \<Rightarrow> real list \<Rightarrow> real list" where
  "np_plus xs ys = map2 (+) xs ys"

text \<open>
  \<^verbatim>\<open>
  data_var1, data_var2 = 0.7 * data_var1 + 0.3 * data_var2, 0.3 * data_var1 + 0.7 * data_var2
  mc_var1, mc_var2 = 0.9 * mc_var1 + 0.1 * mc_var2, 0.1 * mc_var1 + 0.9 * mc_var2
  \<close>
  Python evaluates the right-hand side of a tuple assignment before it binds a name, so
  both new arrays are computed from the arrays as drawn.
\<close>

definition rotate :: "vars \<Rightarrow> vars" where
  "rotate v =
     v\<lparr>data_var1 := np_plus (np_scale 0.7 (data_var1 v)) (np_scale 0.3 (data_var2 v)),
       data_var2 := np_plus (np_scale 0.3 (data_var1 v)) (np_scale 0.7 (data_var2 v)),
       mc_var1 := np_plus (np_scale 0.9 (mc_var1 v)) (np_scale 0.1 (mc_var2 v)),
       mc_var2 := np_plus (np_scale 0.1 (mc_var1 v)) (np_scale 0.9 (mc_var2 v))\<rparr>"

text \<open>
  \<^verbatim>\<open>np.vstack([a, b, c]).T\<close>: the array whose row \<open>i\<close> is \<open>[a[i], b[i], c[i]]\<close>.
  numpy refuses arrays of different lengths, here and in the element-wise sum; the
  arrays of the notebook all have \<open>NSAMPLE\<close> elements (lemma \<open>generated_lengths\<close>),
  so nothing is cut off where the model pairs elements up.
\<close>

definition vstack3_T :: "real list \<Rightarrow> real list \<Rightarrow> real list \<Rightarrow> real list list" where
  "vstack3_T a b c = map (\<lambda>(x, y, l). [x, y, l]) (zip a (zip b c))"

text \<open>
  \<^verbatim>\<open>
  data = np.vstack([data_var1, data_var2, np.zeros(NSAMPLE)]).T
  mc = np.vstack([mc_var1, mc_var2, np.ones(NSAMPLE)]).T
  \<close>
\<close>

definition data :: "nat \<Rightarrow> vars \<Rightarrow> real list list" where
  "data NSAMPLE v = vstack3_T (data_var1 v) (data_var2 v) (replicate NSAMPLE 0)"

definition mc :: "nat \<Rightarrow> vars \<Rightarrow> real list list" where
  "mc NSAMPLE v = vstack3_T (mc_var1 v) (mc_var2 v) (replicate NSAMPLE 1)"

section \<open>The dataset assembler\<close>

text \<open>
  \<^verbatim>\<open>np.random.shuffle(sample)\<close> permutes the rows in place: for \<open>i\<close> from the last
  index down to 1 it draws \<open>j\<close> in \<open>[0, i]\<close> and exchanges rows \<open>i\<close> and \<open>j\<close>. The
  random source is an input of the model, a function giving the draw made at each
  \<open>i\<close>, reduced into \<open>[0, i]\<close>.
\<close>

fun shuffle_from :: "(nat \<Rightarrow> nat) \<Rightarrow> nat \<Rightarrow> 'a list \<Rightarrow> 'a list" where
  "shuffle_from rnd 0 xs = xs"
| "shuffle_from rnd (Suc k) xs =
     (let i = Suc k; j = rnd i mod Suc i
      in shuffle_from rnd k (xs[j := xs ! i, i := xs ! j]))"

definition shuffle :: "(nat \<Rightarrow> nat) \<Rightarrow> 'a list \<Rightarrow> 'a list" where
  "shuffle rnd xs = shuffle_from rnd (length xs - 1) xs"

text \<open>
  \<^verbatim>\<open>
  sample = np.vstack([data, mc])
  np.random.shuffle(sample)
  \<close>
\<close>

definition sample :: "(nat \<Rightarrow> nat) \<Rightarrow> real list list \<Rightarrow> real list list \<Rightarrow> real list list" where
  "sample rnd d m = shuffle rnd (d @ m)"

text \<open>The cells above in sequence: from the random draws to the shuffled sample.\<close>

definition assemble ::
  "nat \<Rightarrow> (nat \<Rightarrow> real) \<Rightarrow> (nat \<Rightarrow> real) \<Rightarrow> (nat \<Rightarrow> real) \<Rightarrow> (nat \<Rightarrow> real) \<Rightarrow> (nat \<Rightarrow> nat)
     \<Rightarrow> real list list" where
  "assemble NSAMPLE d1 d2 m1 m2 rnd =
     (let v = rotate (generate NSAMPLE d1 d2 m1 m2)
      in sample rnd (data NSAMPLE v) (mc NSAMPLE v))"

text \<open>
  \<^verbatim>\<open>int(NSAMPLE / 2)\<close> with \<^verbatim>\<open>NSAMPLE = len(sample)\<close>: a true division, then the
  truncation of \<^verbatim>\<open>int\<close>, which is the floor of a quotient that is not negative.
\<close>

definition half :: "nat \<Rightarrow> nat" where
  "half NSAMPLE = nat \<lfloor>real NSAMPLE / 2\<rfloor>"

text \<open>
  \<^verbatim>\<open>
  training_sample = sample[int(NSAMPLE / 2):]
  testing_sample = sample[:int(NSAMPLE / 2)]
  X_train = training_sample[:, :-1]
  Y_train = training_sample[:, -1]
  \<close>
\<close>

definition training_sample :: "real list list \<Rightarrow> real list list" where
  "training_sample s = drop (half (length s)) s"

definition testing_sample :: "real list list \<Rightarrow> real list list" where
  "testing_sample s = take (half (length s)) s"

definition X_train :: "real list list \<Rightarrow> real list list" where
  "X_train s = map butlast (training_sample s)"

definition Y_train :: "real list list \<Rightarrow> real list" where
  "Y_train s = map last (training_sample s)"

text \<open>
  \<^verbatim>\<open>
  testing_sample_mc = testing_sample[testing_sample[:, -1] == 1]
  testing_sample_data = testing_sample[testing_sample[:, -1] == 0]
  \<close>
\<close>

definition testing_sample_mc :: "real list list \<Rightarrow> real list list" where
  "testing_sample_mc s = filter (\<lambda>r. last r = 1) (testing_sample s)"

definition testing_sample_data :: "real list list \<Rightarrow> real list list" where
  "testing_sample_data s = filter (\<lambda>r. last r = 0) (testing_sample s)"

section \<open>The weight calculator\<close>

text \<open>
  \<^verbatim>\<open>
  weights = classifier.predict(testing_sample_mc[:, :-1])
  weights = weights / (1 - weights)
  \<close>
  The fitted network is an input of the model: a function from the feature vector of
  an event to the output of the sigmoid unit, a finite number. \<^verbatim>\<open>predict\<close> returns a
  column with one output per event, which \<^verbatim>\<open>np.squeeze\<close> flattens where the notebook
  needs it flat; the model keeps one list, in the order of the events.
\<close>

definition predict :: "(real list \<Rightarrow> real) \<Rightarrow> real list list \<Rightarrow> real list" where
  "predict classifier xs = map classifier xs"

definition weight :: "real \<Rightarrow> npfloat" where
  "weight y = np_divide (Fin y) (Fin (1 - y))"

definition weights :: "(real list \<Rightarrow> real) \<Rightarrow> real list list \<Rightarrow> npfloat list" where
  "weights classifier tmc = map weight (predict classifier (map butlast tmc))"


text \<open>
  The same two cells in the arithmetic numpy performs. \<^verbatim>\<open>predict\<close> returns binary32
  numbers, so \<^verbatim>\<open>1 - weights\<close>, the quotient and \<^verbatim>\<open>1/weights\<close> are binary32
  operations: each result is rounded before the next operation reads it.
\<close>

definition weight32 :: "real \<Rightarrow> npfloat" where
  "weight32 y = f32 (np_divide (Fin y) (round32 (1 - y)))"

definition weights32 :: "(real list \<Rightarrow> real) \<Rightarrow> real list list \<Rightarrow> npfloat list" where
  "weights32 classifier tmc = map weight32 (predict classifier (map butlast tmc))"

definition inv_weights32 :: "npfloat list \<Rightarrow> npfloat list" where
  "inv_weights32 ws = map (\<lambda>w. f32 (np_divide (Fin 1) w)) ws"

section \<open>The classifier's training objective\<close>

text \<open>
  \<^verbatim>\<open>
  classifier.compile(loss='binary_crossentropy', metrics='accuracy')
  classifier.fit(X_train, Y_train, epochs=10)
  \<close>
  The network ends in one sigmoid unit and is fitted by minimising the binary
  cross-entropy between the targets \<open>Y_train\<close>, the label column, and its outputs.
  Keras computes it from the outputs clipped to \<open>[\<epsilon>, 1 - \<epsilon>]\<close>, with \<open>\<epsilon> = 1e-7\<close> added
  inside each logarithm: the mean over the events of
  \<open>- (t * log (y + \<epsilon>) + (1 - t) * log (1 - y + \<epsilon>))\<close>. The optimiser is not modelled:
  a candidate network is compared with another by this objective.
\<close>

definition epsilon :: real where
  "epsilon = 1 / 10 ^ 7"

definition clip_by_value :: "real \<Rightarrow> real \<Rightarrow> real \<Rightarrow> real" where
  "clip_by_value y lo hi = min (max y lo) hi"

definition bce_term :: "real \<Rightarrow> real \<Rightarrow> real" where
  "bce_term t y =
     - (t * ln (clip_by_value y epsilon (1 - epsilon) + epsilon)
        + (1 - t) * ln (1 - clip_by_value y epsilon (1 - epsilon) + epsilon))"

definition binary_crossentropy :: "real list \<Rightarrow> real list \<Rightarrow> real" where
  "binary_crossentropy y_true y_pred =
     (\<Sum>(t, y) \<leftarrow> zip y_true y_pred. bce_term t y) / real (length y_true)"

text \<open>The objective of \<^verbatim>\<open>fit\<close> for a candidate network, on the assembled sample.\<close>

definition fit_loss :: "(real list \<Rightarrow> real) \<Rightarrow> real list list \<Rightarrow> real" where
  "fit_loss classifier s = binary_crossentropy (Y_train s) (predict classifier (X_train s))"

section \<open>Diagnostics\<close>


text \<open>\<^verbatim>\<open>np.linspace(a, b, n)\<close>: \<open>n\<close> evenly spaced bin edges from \<open>a\<close> to \<open>b\<close>.\<close>

definition linspace :: "real \<Rightarrow> real \<Rightarrow> nat \<Rightarrow> real list" where
  "linspace a b n = map (\<lambda>k. a + real k * ((b - a) / real (n - 1))) [0..<n]"




section \<open>Properties of the weight transform\<close>

lemma weight_below_one: "y < 1 \<Longrightarrow> weight y = Fin (y / (1 - y))"
  by (simp add: weight_def)

section \<open>Properties of the generator and the assembler\<close>

lemma generated_lengths:
  "length (data_var1 (rotate (generate n d1 d2 m1 m2))) = n
   \<and> length (data_var2 (rotate (generate n d1 d2 m1 m2))) = n
   \<and> length (mc_var1 (rotate (generate n d1 d2 m1 m2))) = n
   \<and> length (mc_var2 (rotate (generate n d1 d2 m1 m2))) = n
   \<and> length (replicate n (0::real)) = n \<and> length (replicate n (1::real)) = n"
  by (simp add: rotate_def generate_def sample_draws_def np_plus_def np_scale_def)

lemma half_div2: "half n = n div 2"
proof -
  have "\<lfloor>real n / real 2\<rfloor> = int (n div 2)" by (rule floor_divide_of_nat_eq)
  then have "\<lfloor>real n / 2\<rfloor> = int (n div 2)" by simp
  then show ?thesis by (simp only: half_def nat_int)
qed

lemma length_vstack3_T: "length (vstack3_T a b c) = min (length a) (min (length b) (length c))"
  by (simp add: vstack3_T_def)

lemma vstack3_T_nth:
  "i < length a \<Longrightarrow> i < length b \<Longrightarrow> i < length c \<Longrightarrow>
   vstack3_T a b c ! i = [a ! i, b ! i, c ! i]"
  by (simp add: vstack3_T_def)

lemma np_mix_nth:
  "i < length xs \<Longrightarrow> i < length ys \<Longrightarrow>
   np_plus (np_scale a xs) (np_scale b ys) ! i = a * xs ! i + b * ys ! i"
  by (simp add: np_plus_def np_scale_def)

lemma length_np_mix:
  "length (np_plus (np_scale a xs) (np_scale b ys)) = min (length xs) (length ys)"
  by (simp add: np_plus_def np_scale_def)

lemma data_rows:
  "data n (rotate (generate n d1 d2 m1 m2)) =
     map (\<lambda>i. [0.7 * d1 i + 0.3 * d2 i, 0.3 * d1 i + 0.7 * d2 i, 0]) [0..<n]"
proof (rule nth_equalityI)
  show "length (data n (rotate (generate n d1 d2 m1 m2))) =
    length (map (\<lambda>i. [0.7 * d1 i + 0.3 * d2 i, 0.3 * d1 i + 0.7 * d2 i, 0]) [0..<n])"
    by (simp add: data_def rotate_def generate_def sample_draws_def length_vstack3_T length_np_mix)
next
  fix i
  assume "i < length (data n (rotate (generate n d1 d2 m1 m2)))"
  then have i: "i < n"
    by (simp add: data_def rotate_def generate_def sample_draws_def length_vstack3_T length_np_mix)
  then show "data n (rotate (generate n d1 d2 m1 m2)) ! i =
    map (\<lambda>i. [0.7 * d1 i + 0.3 * d2 i, 0.3 * d1 i + 0.7 * d2 i, 0]) [0..<n] ! i"
    by (simp add: data_def rotate_def generate_def sample_draws_def vstack3_T_nth np_mix_nth length_np_mix)
qed

lemma mc_rows:
  "mc n (rotate (generate n d1 d2 m1 m2)) =
     map (\<lambda>i. [0.9 * m1 i + 0.1 * m2 i, 0.1 * m1 i + 0.9 * m2 i, 1]) [0..<n]"
proof (rule nth_equalityI)
  show "length (mc n (rotate (generate n d1 d2 m1 m2))) =
    length (map (\<lambda>i. [0.9 * m1 i + 0.1 * m2 i, 0.1 * m1 i + 0.9 * m2 i, 1]) [0..<n])"
    by (simp add: mc_def rotate_def generate_def sample_draws_def length_vstack3_T length_np_mix)
next
  fix i
  assume "i < length (mc n (rotate (generate n d1 d2 m1 m2)))"
  then have i: "i < n"
    by (simp add: mc_def rotate_def generate_def sample_draws_def length_vstack3_T length_np_mix)
  then show "mc n (rotate (generate n d1 d2 m1 m2)) ! i =
    map (\<lambda>i. [0.9 * m1 i + 0.1 * m2 i, 0.1 * m1 i + 0.9 * m2 i, 1]) [0..<n] ! i"
    by (simp add: mc_def rotate_def generate_def sample_draws_def vstack3_T_nth np_mix_nth length_np_mix)
qed

lemma mset_shuffle_from: "k < length xs \<Longrightarrow> mset (shuffle_from rnd k xs) = mset xs"
proof (induction k arbitrary: xs)
  case 0
  then show ?case by simp
next
  case (Suc k)
  let ?j = "rnd (Suc k) mod Suc (Suc k)"
  have "?j < Suc (Suc k)" by (rule mod_less_divisor) simp
  then have j: "?j < length xs" using Suc.prems by linarith
  have "mset (xs[?j := xs ! Suc k, Suc k := xs ! ?j]) = mset xs"
    using Suc.prems j by (simp add: mset_swap)
  then show ?case using Suc by (simp add: Let_def)
qed

lemma mset_shuffle: "mset (shuffle rnd xs) = mset xs"
  by (cases xs) (simp_all add: shuffle_def mset_shuffle_from)

lemma length_shuffle: "length (shuffle rnd xs) = length xs"
  using mset_shuffle [of rnd xs] by (rule mset_eq_length)

lemma set_shuffle: "set (shuffle rnd xs) = set xs"
  using mset_shuffle [of rnd xs] by (rule mset_eq_setD)

lemma assemble_mset:
  "mset (assemble n d1 d2 m1 m2 rnd) =
     mset (data n (rotate (generate n d1 d2 m1 m2)) @ mc n (rotate (generate n d1 d2 m1 m2)))"
  by (simp add: assemble_def sample_def Let_def mset_shuffle)

text \<open>
  Claim C8. The generator mixes each drawn pair linearly, with other coefficients for
  data than for MC: row \<open>i\<close> of \<open>data\<close> is
  \<open>[0.7 * v1 + 0.3 * v2, 0.3 * v1 + 0.7 * v2, 0]\<close> for the pair \<open>(v1, v2)\<close> drawn at
  \<open>i\<close> from the data distributions, and row \<open>i\<close> of \<open>mc\<close> is
  \<open>[0.9 * v1 + 0.1 * v2, 0.1 * v1 + 0.9 * v2, 1]\<close> for the pair drawn from the MC
  distributions.
\<close>

theorem rotation_mixes_linearly:
  "data n (rotate (generate n d1 d2 m1 m2)) =
     map (\<lambda>i. [0.7 * d1 i + 0.3 * d2 i, 0.3 * d1 i + 0.7 * d2 i, 0]) [0..<n]
   \<and> mc n (rotate (generate n d1 d2 m1 m2)) =
     map (\<lambda>i. [0.9 * m1 i + 0.1 * m2 i, 0.1 * m1 i + 0.9 * m2 i, 1]) [0..<n]"
  using data_rows [of n d1 d2 m1 m2] mc_rows [of n d1 d2 m1 m2] by (rule conjI)

text \<open>
  Claim C9. The assembler changes no sample: the shuffled dataset has exactly the rows
  of the data samples followed by the MC samples, each as often as there, and its
  size is the number of data samples plus the number of MC samples, \<open>2 * NSAMPLE\<close>.
\<close>

theorem sample_is_permutation:
  "mset (sample rnd d m) = mset (d @ m)
   \<and> length (sample rnd d m) = length d + length m
   \<and> mset (assemble n d1 d2 m1 m2 rnd) =
       mset (data n (rotate (generate n d1 d2 m1 m2)) @ mc n (rotate (generate n d1 d2 m1 m2)))
   \<and> length (assemble n d1 d2 m1 m2 rnd) = 2 * n"
proof (intro conjI)
  show "mset (sample rnd d m) = mset (d @ m)"
    by (simp only: sample_def mset_shuffle)
  show "length (sample rnd d m) = length d + length m"
    by (simp add: sample_def length_shuffle)
  show "mset (assemble n d1 d2 m1 m2 rnd) =
       mset (data n (rotate (generate n d1 d2 m1 m2)) @ mc n (rotate (generate n d1 d2 m1 m2)))"
    by (rule assemble_mset)
  show "length (assemble n d1 d2 m1 m2 rnd) = 2 * n"
    by (simp add: assemble_def sample_def Let_def length_shuffle data_rows mc_rows)
qed

text \<open>
  Claim C6. The split is a function of the dataset alone: the test subset is the first
  \<open>floor(N / 2)\<close> samples and the training subset is the rest, so the two share no
  position of the dataset and together hold every sample.
\<close>

theorem split_in_halves:
  "testing_sample s = take (length s div 2) s
   \<and> training_sample s = drop (length s div 2) s
   \<and> length (testing_sample s) = length s div 2
   \<and> length (training_sample s) = length s - length s div 2
   \<and> testing_sample s @ training_sample s = s
   \<and> mset (testing_sample s) + mset (training_sample s) = mset s"
proof -
  have "mset (take (length s div 2) s) + mset (drop (length s div 2) s) = mset s"
    by (simp flip: mset_append)
  then show ?thesis
    by (simp add: testing_sample_def training_sample_def half_div2)
qed

section \<open>Properties of the weights\<close>

lemma weights_nth:
  "i < length tmc \<Longrightarrow>
   weights classifier tmc ! i =
     np_divide (Fin (classifier (butlast (tmc ! i)))) (Fin (1 - classifier (butlast (tmc ! i))))"
  by (simp add: weights_def predict_def weight_def)

lemma length_weights: "length (weights classifier tmc) = length tmc"
  by (simp add: weights_def predict_def)

text \<open>
  Claim C5. The weight is \<open>y / (1 - y)\<close> as it stands, with no clipping, calibration
  or stabilisation of \<open>y\<close>: the weight of an event is computed from the classifier's
  output for it and nothing else, it is that quotient for every output below 1, and at
  \<open>y = 1\<close> the unguarded division is a division by zero, whose result is numpy's
  infinity.
\<close>

theorem weight_unguarded:
  "(\<forall>i < length tmc. weights classifier tmc ! i = weight (classifier (butlast (tmc ! i))))
   \<and> (\<forall>y < 1. weight y = Fin (y / (1 - y)))
   \<and> weight 1 = np_divide (Fin 1) (Fin 0)
   \<and> weight 1 = PInf"
proof (intro conjI allI impI)
  fix i
  assume "i < length tmc"
  then show "weights classifier tmc ! i = weight (classifier (butlast (tmc ! i)))"
    by (simp add: weights_def predict_def)
next
  fix y :: real
  assume "y < 1"
  then have "1 - y \<noteq> 0" by simp
  then show "weight y = Fin (y / (1 - y))" by (simp add: weight_def)
next
  show "weight 1 = np_divide (Fin 1) (Fin 0)" by (simp add: weight_def)
next
  have "np_divide (Fin 1) (Fin 0) = PInf" by simp
  then show "weight 1 = PInf" by (simp add: weight_def)
qed

theorem weight_unguarded_witness:
  "weight (1/2) = Fin 1 \<and> weight (-1) = Fin (- (1/2)) \<and> weight 1 = PInf"
proof -
  note t = weight_unguarded [where tmc = "[]" and classifier = "\<lambda>_. 0"]
  have a: "\<forall>y < 1. weight y = Fin (y / (1 - y))"
    using t [THEN conjunct2, THEN conjunct1] .
  have b: "weight 1 = PInf"
    using t [THEN conjunct2, THEN conjunct2, THEN conjunct2] .
  have "weight (1/2) = Fin ((1/2) / (1 - 1/2))" using a by simp
  moreover have "weight (-1) = Fin ((-1) / (1 - (-1)))" using a by simp
  ultimately show ?thesis using b by simp
qed

section \<open>The label and shape invariant\<close>

lemma data_row_shape:
  "r \<in> set (data n (rotate (generate n d1 d2 m1 m2))) \<Longrightarrow> length r = 3 \<and> last r = 0"
  by (auto simp add: data_rows)

lemma mc_row_shape:
  "r \<in> set (mc n (rotate (generate n d1 d2 m1 m2))) \<Longrightarrow> length r = 3 \<and> last r = 1"
  by (auto simp add: mc_rows)

lemma set_assemble:
  "set (assemble n d1 d2 m1 m2 rnd) =
     set (data n (rotate (generate n d1 d2 m1 m2))) \<union> set (mc n (rotate (generate n d1 d2 m1 m2)))"
  by (simp add: assemble_def sample_def Let_def set_shuffle)

lemma assemble_row_shape:
  "r \<in> set (assemble n d1 d2 m1 m2 rnd) \<Longrightarrow> length r = 3 \<and> (last r = 0 \<or> last r = 1)"
  using data_row_shape [of r n d1 d2 m1 m2] mc_row_shape [of r n d1 d2 m1 m2]
  by (auto simp add: set_assemble)

text \<open>
  Claim C7. Every sample of the assembled dataset has three components, two feature
  values and the label, and its label, the last component, is 0 or 1: 0 on the rows
  that come from data and 1 on the rows that come from MC. Shuffling, the split into
  training and test samples and the selection of the MC and data test samples keep
  this, and the selected MC test samples all carry label 1, the data ones label 0.
\<close>

theorem label_shape_invariant:
  "(\<forall>r \<in> set (data n (rotate (generate n d1 d2 m1 m2))). length r = 3 \<and> last r = 0)
   \<and> (\<forall>r \<in> set (mc n (rotate (generate n d1 d2 m1 m2))). length r = 3 \<and> last r = 1)
   \<and> (\<forall>r \<in> set (assemble n d1 d2 m1 m2 rnd). length r = 3 \<and> (last r = 0 \<or> last r = 1))
   \<and> (\<forall>r \<in> set (training_sample (assemble n d1 d2 m1 m2 rnd)).
         length r = 3 \<and> (last r = 0 \<or> last r = 1))
   \<and> (\<forall>r \<in> set (testing_sample (assemble n d1 d2 m1 m2 rnd)).
         length r = 3 \<and> (last r = 0 \<or> last r = 1))
   \<and> (\<forall>r \<in> set (testing_sample_mc (assemble n d1 d2 m1 m2 rnd)). length r = 3 \<and> last r = 1)
   \<and> (\<forall>r \<in> set (testing_sample_data (assemble n d1 d2 m1 m2 rnd)). length r = 3 \<and> last r = 0)"
proof -
  let ?s = "assemble n d1 d2 m1 m2 rnd"
  have s: "\<forall>r \<in> set ?s. length r = 3 \<and> (last r = 0 \<or> last r = 1)"
    using assemble_row_shape by blast
  have tr: "set (training_sample ?s) \<subseteq> set ?s"
    by (simp add: training_sample_def set_drop_subset)
  have te: "set (testing_sample ?s) \<subseteq> set ?s"
    by (simp add: testing_sample_def set_take_subset)
  have 1: "\<forall>r \<in> set (data n (rotate (generate n d1 d2 m1 m2))). length r = 3 \<and> last r = 0"
    using data_row_shape by blast
  have 2: "\<forall>r \<in> set (mc n (rotate (generate n d1 d2 m1 m2))). length r = 3 \<and> last r = 1"
    using mc_row_shape by blast
  have 4: "\<forall>r \<in> set (training_sample ?s). length r = 3 \<and> (last r = 0 \<or> last r = 1)"
    using s tr by blast
  have 5: "\<forall>r \<in> set (testing_sample ?s). length r = 3 \<and> (last r = 0 \<or> last r = 1)"
    using s te by blast
  have 6: "\<forall>r \<in> set (testing_sample_mc ?s). length r = 3 \<and> last r = 1"
    using 5 by (simp add: testing_sample_mc_def)
  have 7: "\<forall>r \<in> set (testing_sample_data ?s). length r = 3 \<and> last r = 0"
    using 5 by (simp add: testing_sample_data_def)
  show ?thesis using 1 2 s 4 5 6 7 by (intro conjI)
qed

lemma assemble_example:
  "assemble 2 (\<lambda>i. 1) (\<lambda>i. 2) (\<lambda>i. 1) (\<lambda>i. 2) (\<lambda>i. 0) =
     [[13/10, 17/10, 0], [11/10, 19/10, 1], [11/10, 19/10, 1], [13/10, 17/10, 0]]"
  by (simp add: assemble_def Let_def data_rows mc_rows sample_def shuffle_def
      eval_nat_numeral upt_rec)

theorem label_shape_invariant_witness:
  "(\<exists>r. r \<in> set (testing_sample_mc (assemble 2 (\<lambda>i. 1) (\<lambda>i. 2) (\<lambda>i. 1) (\<lambda>i. 2) (\<lambda>i. 0)))
        \<and> length r = 3 \<and> last r = 1)
   \<and> (\<exists>r. r \<in> set (testing_sample_data (assemble 2 (\<lambda>i. 1) (\<lambda>i. 2) (\<lambda>i. 1) (\<lambda>i. 2) (\<lambda>i. 0)))
        \<and> length r = 3 \<and> last r = 0)
   \<and> (\<exists>r. r \<in> set (training_sample (assemble 2 (\<lambda>i. 1) (\<lambda>i. 2) (\<lambda>i. 1) (\<lambda>i. 2) (\<lambda>i. 0)))
        \<and> length r = 3 \<and> (last r = 0 \<or> last r = 1))"
proof -
  let ?s = "assemble 2 (\<lambda>i. 1) (\<lambda>i. 2) (\<lambda>i. 1) (\<lambda>i. 2) (\<lambda>i. 0)"
  have m: "[11/10, 19/10, 1] \<in> set (testing_sample_mc ?s)"
    by (simp add: assemble_example testing_sample_mc_def testing_sample_def half_div2)
  have d: "[13/10, 17/10, 0] \<in> set (testing_sample_data ?s)"
    by (simp add: assemble_example testing_sample_data_def testing_sample_def half_div2)
  have t: "[11/10, 19/10, 1] \<in> set (training_sample ?s)"
    by (simp add: assemble_example training_sample_def half_div2)
  show ?thesis
    using label_shape_invariant [of 2 "\<lambda>i. 1" "\<lambda>i. 2" "\<lambda>i. 1" "\<lambda>i. 2" "\<lambda>i. 0"] m d t
    by blast
qed

section \<open>Sums of finite weights\<close>



section \<open>What the classifier is fitted to\<close>

lemma epsilon_bounds: "0 < epsilon" "epsilon < 1 - epsilon"
  by (simp_all add: epsilon_def)

lemma clip_mono: "y \<le> y' \<Longrightarrow> clip_by_value y lo hi \<le> clip_by_value y' lo hi"
  by (auto simp add: clip_by_value_def min_def max_def)

lemma clip_range:
  "epsilon \<le> clip_by_value y epsilon (1 - epsilon)"
  "clip_by_value y epsilon (1 - epsilon) \<le> 1 - epsilon"
  using epsilon_bounds by (simp_all add: clip_by_value_def)

lemma clip_inside: "lo \<le> y \<Longrightarrow> y \<le> hi \<Longrightarrow> clip_by_value y lo hi = y"
  by (simp add: clip_by_value_def)

lemma bce_term_mc: "bce_term 1 y = - ln (clip_by_value y epsilon (1 - epsilon) + epsilon)"
  by (simp add: bce_term_def)

lemma bce_term_data: "bce_term 0 y = - ln (1 - clip_by_value y epsilon (1 - epsilon) + epsilon)"
  by (simp add: bce_term_def)

lemma bce_term_mc_mono:
  assumes "y \<le> y'"
  shows "bce_term 1 y' \<le> bce_term 1 y"
proof -
  let ?c = "clip_by_value y epsilon (1 - epsilon)"
  let ?c' = "clip_by_value y' epsilon (1 - epsilon)"
  have "?c \<le> ?c'" using assms by (rule clip_mono)
  moreover have "0 < ?c + epsilon" using clip_range(1) [of y] epsilon_bounds(1) by linarith
  ultimately have "ln (?c + epsilon) \<le> ln (?c' + epsilon)" by simp
  then show ?thesis by (simp add: bce_term_mc)
qed

lemma bce_term_data_mono:
  assumes "y' \<le> y"
  shows "bce_term 0 y' \<le> bce_term 0 y"
proof -
  let ?c = "clip_by_value y epsilon (1 - epsilon)"
  let ?c' = "clip_by_value y' epsilon (1 - epsilon)"
  have "?c' \<le> ?c" using assms by (rule clip_mono)
  moreover have "0 < 1 - ?c + epsilon" using clip_range(2) [of y] epsilon_bounds(1) by linarith
  ultimately have "ln (1 - ?c + epsilon) \<le> ln (1 - ?c' + epsilon)" by simp
  then show ?thesis by (simp add: bce_term_data)
qed

lemma bce_term_mc_strict:
  assumes "epsilon \<le> y" "y < y'" "y' \<le> 1 - epsilon"
  shows "bce_term 1 y' < bce_term 1 y"
proof -
  have "clip_by_value y epsilon (1 - epsilon) = y" "clip_by_value y' epsilon (1 - epsilon) = y'"
    using assms by (simp_all add: clip_inside)
  moreover have "0 < y + epsilon" using assms(1) epsilon_bounds(1) by linarith
  ultimately show ?thesis using assms(2) by (simp add: bce_term_mc)
qed

lemma bce_term_data_strict:
  assumes "epsilon \<le> y'" "y' < y" "y \<le> 1 - epsilon"
  shows "bce_term 0 y' < bce_term 0 y"
proof -
  have "clip_by_value y epsilon (1 - epsilon) = y" "clip_by_value y' epsilon (1 - epsilon) = y'"
    using assms by (simp_all add: clip_inside)
  moreover have "0 < 1 - y + epsilon" using assms(3) epsilon_bounds(1) by linarith
  ultimately show ?thesis using assms(2) by (simp add: bce_term_data)
qed

lemma fit_loss_rows:
  "fit_loss classifier s =
     (\<Sum>r \<leftarrow> training_sample s. bce_term (last r) (classifier (butlast r)))
       / real (length (training_sample s))"
proof -
  have "(\<Sum>(t, y) \<leftarrow> zip (map last rows) (map classifier (map butlast rows)). bce_term t y)
      = (\<Sum>r \<leftarrow> rows. bce_term (last r) (classifier (butlast r)))" for rows
    by (induction rows) simp_all
  then show ?thesis
    by (simp add: fit_loss_def binary_crossentropy_def Y_train_def X_train_def predict_def)
qed

lemma sum_list_le_and_less:
  fixes f g :: "'a \<Rightarrow> real"
  assumes le: "\<And>x. x \<in> set xs \<Longrightarrow> f x \<le> g x"
    and lt: "z \<in> set xs" "f z < g z"
  shows "sum_list (map f xs) < sum_list (map g xs)"
proof -
  obtain as bs where xs: "xs = as @ z # bs" using lt(1) by (meson split_list)
  have "sum_list (map f as) \<le> sum_list (map g as)"
    by (rule sum_list_mono) (simp add: le xs)
  moreover have "sum_list (map f bs) \<le> sum_list (map g bs)"
    by (rule sum_list_mono) (simp add: le xs)
  ultimately show ?thesis using lt(2) by (simp add: xs)
qed

lemma fit_loss_mono:
  assumes lab: "\<forall>r \<in> set (training_sample s). last r = 0 \<or> last r = 1"
    and up: "\<forall>r \<in> set (training_sample s). last r = 1 \<longrightarrow> c1 (butlast r) \<le> c2 (butlast r)"
    and down: "\<forall>r \<in> set (training_sample s). last r = 0 \<longrightarrow> c2 (butlast r) \<le> c1 (butlast r)"
  shows "fit_loss c2 s \<le> fit_loss c1 s"
proof -
  have tm: "bce_term (last r) (c2 (butlast r)) \<le> bce_term (last r) (c1 (butlast r))"
    if "r \<in> set (training_sample s)" for r
    using lab up down that bce_term_mc_mono bce_term_data_mono by (metis)
  have "(\<Sum>r \<leftarrow> training_sample s. bce_term (last r) (c2 (butlast r)))
      \<le> (\<Sum>r \<leftarrow> training_sample s. bce_term (last r) (c1 (butlast r)))"
    by (rule sum_list_mono) (rule tm)
  then show ?thesis by (simp add: fit_loss_rows divide_right_mono)
qed

lemma fit_loss_strict:
  assumes lab: "\<forall>r \<in> set (training_sample s). last r = 0 \<or> last r = 1"
    and up: "\<forall>r \<in> set (training_sample s). last r = 1 \<longrightarrow> c1 (butlast r) \<le> c2 (butlast r)"
    and down: "\<forall>r \<in> set (training_sample s). last r = 0 \<longrightarrow> c2 (butlast r) \<le> c1 (butlast r)"
    and z: "z \<in> set (training_sample s)"
    and strict: "(last z = 1 \<and> epsilon \<le> c1 (butlast z) \<and> c1 (butlast z) < c2 (butlast z)
                    \<and> c2 (butlast z) \<le> 1 - epsilon)
               \<or> (last z = 0 \<and> epsilon \<le> c2 (butlast z) \<and> c2 (butlast z) < c1 (butlast z)
                    \<and> c1 (butlast z) \<le> 1 - epsilon)"
  shows "fit_loss c2 s < fit_loss c1 s"
proof -
  have tm: "bce_term (last r) (c2 (butlast r)) \<le> bce_term (last r) (c1 (butlast r))"
    if "r \<in> set (training_sample s)" for r
    using lab up down that bce_term_mc_mono bce_term_data_mono by (metis)
  have zt: "bce_term (last z) (c2 (butlast z)) < bce_term (last z) (c1 (butlast z))"
    using strict bce_term_mc_strict bce_term_data_strict by (metis)
  have "(\<Sum>r \<leftarrow> training_sample s. bce_term (last r) (c2 (butlast r)))
      < (\<Sum>r \<leftarrow> training_sample s. bce_term (last r) (c1 (butlast r)))"
    using tm z zt by (rule sum_list_le_and_less)
  moreover have "0 < real (length (training_sample s))" using z by (cases "training_sample s") auto
  ultimately show ?thesis by (simp add: fit_loss_rows divide_strict_right_mono)
qed

lemma origin_by_label:
  assumes "r \<in> set (assemble n d1 d2 m1 m2 rnd)"
  shows "(last r = 0 \<longleftrightarrow> r \<in> set (data n (rotate (generate n d1 d2 m1 m2))))
       \<and> (last r = 1 \<longleftrightarrow> r \<in> set (mc n (rotate (generate n d1 d2 m1 m2))))"
  using assms data_row_shape [of r n d1 d2 m1 m2] mc_row_shape [of r n d1 d2 m1 m2]
  by (auto simp add: set_assemble)

lemma training_labels:
  "\<forall>r \<in> set (training_sample (assemble n d1 d2 m1 m2 rnd)). last r = 0 \<or> last r = 1"
proof
  fix r
  assume "r \<in> set (training_sample (assemble n d1 d2 m1 m2 rnd))"
  then have "r \<in> set (assemble n d1 d2 m1 m2 rnd)"
    unfolding training_sample_def by (rule in_set_dropD)
  then show "last r = 0 \<or> last r = 1" using assemble_row_shape by blast
qed

lemma distinct_example:
  "assemble 2 (\<lambda>i. real i) (\<lambda>_. 0) (\<lambda>i. 2 + real i) (\<lambda>_. 0) (\<lambda>_. 0) =
     [[7/10, 3/10, 0], [9/5, 1/5, 1], [27/10, 3/10, 1], [0, 0, 0]]"
  by (simp add: assemble_def Let_def data_rows mc_rows sample_def shuffle_def
      eval_nat_numeral upt_rec)

lemma distinct_training:
  "training_sample (assemble 2 (\<lambda>i. real i) (\<lambda>_. 0) (\<lambda>i. 2 + real i) (\<lambda>_. 0) (\<lambda>_. 0)) =
     [[27/10, 3/10, 1], [0, 0, 0]]"
  by (simp add: distinct_example training_sample_def half_div2)

lemma distinct_testing:
  "testing_sample (assemble 2 (\<lambda>i. real i) (\<lambda>_. 0) (\<lambda>i. 2 + real i) (\<lambda>_. 0) (\<lambda>_. 0)) =
     [[7/10, 3/10, 0], [9/5, 1/5, 1]]"
  by (simp add: distinct_example testing_sample_def half_div2)

lemma distinct_testing_mc:
  "testing_sample_mc (assemble 2 (\<lambda>i. real i) (\<lambda>_. 0) (\<lambda>i. 2 + real i) (\<lambda>_. 0) (\<lambda>_. 0)) =
     [[9/5, 1/5, 1]]"
  by (simp add: distinct_testing testing_sample_mc_def)

text \<open>
  Claim C1, as the code has it. For every event scored by the classifier the weight
  calculator computes \<open>w = y / (1 - y)\<close> from the classifier's output \<open>y\<close> for the
  event's features. The classifier is fitted to the label column, in which data is 0
  and MC is 1. On every sample the notebook assembles, for any draws and any shuffle,
  the objective of the fit does not rise when the outputs go up on the MC training
  events and down on the data training events, and it falls when one of them moves
  inside the clipping range. So the fit drives \<open>y\<close> towards 1 on MC events and towards
  0 on data events: \<open>y\<close> is the predicted probability that the event is MC, label 1.
\<close>

theorem weight_from_classifier_output:
  "length (weights classifier tmc) = length tmc
   \<and> (\<forall>i < length tmc. weights classifier tmc ! i =
         np_divide (Fin (classifier (butlast (tmc ! i)))) (Fin (1 - classifier (butlast (tmc ! i)))))
   \<and> (\<forall>r \<in> set (training_sample (assemble n d1 d2 m1 m2 rnd)).
         (last r = 0 \<longleftrightarrow> r \<in> set (data n (rotate (generate n d1 d2 m1 m2))))
       \<and> (last r = 1 \<longleftrightarrow> r \<in> set (mc n (rotate (generate n d1 d2 m1 m2)))))
   \<and> (\<forall>c1 c2.
         (\<forall>r \<in> set (training_sample (assemble n d1 d2 m1 m2 rnd)).
            (last r = 1 \<longrightarrow> c1 (butlast r) \<le> c2 (butlast r))
          \<and> (last r = 0 \<longrightarrow> c2 (butlast r) \<le> c1 (butlast r)))
         \<longrightarrow> fit_loss c2 (assemble n d1 d2 m1 m2 rnd) \<le> fit_loss c1 (assemble n d1 d2 m1 m2 rnd))
   \<and> (\<forall>c1 c2 z.
         (\<forall>r \<in> set (training_sample (assemble n d1 d2 m1 m2 rnd)).
            (last r = 1 \<longrightarrow> c1 (butlast r) \<le> c2 (butlast r))
          \<and> (last r = 0 \<longrightarrow> c2 (butlast r) \<le> c1 (butlast r)))
         \<and> z \<in> set (training_sample (assemble n d1 d2 m1 m2 rnd))
         \<and> ((last z = 1 \<and> epsilon \<le> c1 (butlast z) \<and> c1 (butlast z) < c2 (butlast z)
                \<and> c2 (butlast z) \<le> 1 - epsilon)
            \<or> (last z = 0 \<and> epsilon \<le> c2 (butlast z) \<and> c2 (butlast z) < c1 (butlast z)
                \<and> c1 (butlast z) \<le> 1 - epsilon))
         \<longrightarrow> fit_loss c2 (assemble n d1 d2 m1 m2 rnd) < fit_loss c1 (assemble n d1 d2 m1 m2 rnd))"
proof (intro conjI ballI allI impI)
  show "length (weights classifier tmc) = length tmc" by (rule length_weights)
next
  fix i
  assume "i < length tmc"
  then show "weights classifier tmc ! i =
         np_divide (Fin (classifier (butlast (tmc ! i)))) (Fin (1 - classifier (butlast (tmc ! i))))"
    by (rule weights_nth)
next
  fix r
  assume "r \<in> set (training_sample (assemble n d1 d2 m1 m2 rnd))"
  then have r: "r \<in> set (assemble n d1 d2 m1 m2 rnd)"
    unfolding training_sample_def by (rule in_set_dropD)
  show "last r = 0 \<longleftrightarrow> r \<in> set (data n (rotate (generate n d1 d2 m1 m2)))"
    using origin_by_label [OF r] by simp
  show "last r = 1 \<longleftrightarrow> r \<in> set (mc n (rotate (generate n d1 d2 m1 m2)))"
    using origin_by_label [OF r] by simp
next
  fix c1 c2 :: "real list \<Rightarrow> real"
  let ?s = "assemble n d1 d2 m1 m2 rnd"
  assume h: "\<forall>r \<in> set (training_sample ?s).
            (last r = 1 \<longrightarrow> c1 (butlast r) \<le> c2 (butlast r))
          \<and> (last r = 0 \<longrightarrow> c2 (butlast r) \<le> c1 (butlast r))"
  show "fit_loss c2 ?s \<le> fit_loss c1 ?s"
    using training_labels h by (intro fit_loss_mono) blast+
next
  fix c1 c2 :: "real list \<Rightarrow> real" and z
  let ?s = "assemble n d1 d2 m1 m2 rnd"
  assume h: "(\<forall>r \<in> set (training_sample ?s).
            (last r = 1 \<longrightarrow> c1 (butlast r) \<le> c2 (butlast r))
          \<and> (last r = 0 \<longrightarrow> c2 (butlast r) \<le> c1 (butlast r)))
         \<and> z \<in> set (training_sample ?s)
         \<and> ((last z = 1 \<and> epsilon \<le> c1 (butlast z) \<and> c1 (butlast z) < c2 (butlast z)
                \<and> c2 (butlast z) \<le> 1 - epsilon)
            \<or> (last z = 0 \<and> epsilon \<le> c2 (butlast z) \<and> c2 (butlast z) < c1 (butlast z)
                \<and> c1 (butlast z) \<le> 1 - epsilon))"
  have up: "\<forall>r \<in> set (training_sample ?s). last r = 1 \<longrightarrow> c1 (butlast r) \<le> c2 (butlast r)"
    and down: "\<forall>r \<in> set (training_sample ?s). last r = 0 \<longrightarrow> c2 (butlast r) \<le> c1 (butlast r)"
    using h by blast+
  have z: "z \<in> set (training_sample ?s)" using h by blast
  have st: "(last z = 1 \<and> epsilon \<le> c1 (butlast z) \<and> c1 (butlast z) < c2 (butlast z)
                \<and> c2 (butlast z) \<le> 1 - epsilon)
            \<or> (last z = 0 \<and> epsilon \<le> c2 (butlast z) \<and> c2 (butlast z) < c1 (butlast z)
                \<and> c1 (butlast z) \<le> 1 - epsilon)"
    using h by blast
  show "fit_loss c2 ?s < fit_loss c1 ?s"
    using training_labels up down z st by (rule fit_loss_strict)
qed

lemma example_order:
  "\<forall>r \<in> set (training_sample (assemble 2 (\<lambda>i. real i) (\<lambda>_. 0) (\<lambda>i. 2 + real i) (\<lambda>_. 0) (\<lambda>_. 0))).
      (last r = 1 \<longrightarrow> (\<lambda>x. if x ! 0 < 1 then 3/4 else 1/4) (butlast r)
                        \<le> (\<lambda>x. if x ! 0 < 1 then 1/4 else (3/4::real)) (butlast r))
    \<and> (last r = 0 \<longrightarrow> (\<lambda>x. if x ! 0 < 1 then 1/4 else 3/4) (butlast r)
                        \<le> (\<lambda>x. if x ! 0 < 1 then 3/4 else (1/4::real)) (butlast r))"
  by (simp add: distinct_training)

theorem weight_from_classifier_output_witness:
  "weights (\<lambda>x. if x ! 0 < 1 then 1/4 else 3/4)
       (testing_sample_mc (assemble 2 (\<lambda>i. real i) (\<lambda>_. 0) (\<lambda>i. 2 + real i) (\<lambda>_. 0) (\<lambda>_. 0))) ! 0
     = Fin 3
   \<and> [27/10, 3/10, 1] \<in> set (training_sample
         (assemble 2 (\<lambda>i. real i) (\<lambda>_. 0) (\<lambda>i. 2 + real i) (\<lambda>_. 0) (\<lambda>_. 0)))
   \<and> [27/10, 3/10, 1] \<in> set (mc 2 (rotate (generate 2 (\<lambda>i. real i) (\<lambda>_. 0) (\<lambda>i. 2 + real i) (\<lambda>_. 0))))
   \<and> fit_loss (\<lambda>x. if x ! 0 < 1 then 1/4 else 3/4)
         (assemble 2 (\<lambda>i. real i) (\<lambda>_. 0) (\<lambda>i. 2 + real i) (\<lambda>_. 0) (\<lambda>_. 0))
       < fit_loss (\<lambda>x. if x ! 0 < 1 then 3/4 else 1/4)
         (assemble 2 (\<lambda>i. real i) (\<lambda>_. 0) (\<lambda>i. 2 + real i) (\<lambda>_. 0) (\<lambda>_. 0))"
proof -
  let ?s = "assemble 2 (\<lambda>i. real i) (\<lambda>_. 0) (\<lambda>i. 2 + real i) (\<lambda>_. 0) (\<lambda>_. 0)"
  let ?cM = "\<lambda>x::real list. if x ! 0 < 1 then 1/4 else (3/4::real)"
  let ?cD = "\<lambda>x::real list. if x ! 0 < 1 then 3/4 else (1/4::real)"
  note t = weight_from_classifier_output [where classifier = ?cM and tmc = "testing_sample_mc ?s"
      and n = 2 and ?d1.0 = "\<lambda>i. real i" and ?d2.0 = "\<lambda>_. 0" and ?m1.0 = "\<lambda>i. 2 + real i"
      and ?m2.0 = "\<lambda>_. 0" and rnd = "\<lambda>_. 0"]
  have w: "weights ?cM (testing_sample_mc ?s) ! 0 = Fin 3"
    using t [THEN conjunct2, THEN conjunct1] by (simp add: distinct_testing_mc)
  have m: "[27/10, 3/10, 1] \<in> set (training_sample ?s)" by (simp add: distinct_training)
  have o: "[27/10, 3/10, 1] \<in> set (mc 2 (rotate (generate 2 (\<lambda>i. real i) (\<lambda>_. 0) (\<lambda>i. 2 + real i) (\<lambda>_. 0))))"
    using t [THEN conjunct2, THEN conjunct2, THEN conjunct1, THEN bspec, OF m] by simp
  have st: "last [27/10, 3/10, 1::real] = 1 \<and> epsilon \<le> ?cD (butlast [27/10, 3/10, 1])
      \<and> ?cD (butlast [27/10, 3/10, 1]) < ?cM (butlast [27/10, 3/10, 1])
      \<and> ?cM (butlast [27/10, 3/10, 1]) \<le> 1 - epsilon"
    by (simp add: epsilon_def)
  have "fit_loss ?cM ?s < fit_loss ?cD ?s"
    using t [THEN conjunct2, THEN conjunct2, THEN conjunct2, THEN conjunct2,
        rule_format, of ?cD ?cM "[27/10, 3/10, 1]"] example_order m st
    by blast
  then show ?thesis using w m o by simp
qed

text \<open>
  Claim C1 as stated fails. On the sample assembled from the draws \<open>0, 1\<close> for data and
  \<open>2, 3\<close> for MC, the training events are one MC event and one data event. A
  classifier that gives the data event the output \<open>3/4\<close> and the MC event \<open>1/4\<close>, as a
  probability of data would, has a higher loss than the classifier that gives the MC
  event \<open>3/4\<close> and the data event \<open>1/4\<close>; and from the output \<open>3/4\<close> on the MC test
  event the weight calculator gives \<open>3\<close>.
\<close>

theorem classifier_output_is_not_data_probability:
  "Y_train (assemble 2 (\<lambda>i. real i) (\<lambda>_. 0) (\<lambda>i. 2 + real i) (\<lambda>_. 0) (\<lambda>_. 0)) = [1, 0]
   \<and> X_train (assemble 2 (\<lambda>i. real i) (\<lambda>_. 0) (\<lambda>i. 2 + real i) (\<lambda>_. 0) (\<lambda>_. 0))
       = [[27/10, 3/10], [0, 0]]
   \<and> fit_loss (\<lambda>x. if x ! 0 < 1 then 1/4 else 3/4)
         (assemble 2 (\<lambda>i. real i) (\<lambda>_. 0) (\<lambda>i. 2 + real i) (\<lambda>_. 0) (\<lambda>_. 0))
       < fit_loss (\<lambda>x. if x ! 0 < 1 then 3/4 else 1/4)
         (assemble 2 (\<lambda>i. real i) (\<lambda>_. 0) (\<lambda>i. 2 + real i) (\<lambda>_. 0) (\<lambda>_. 0))
   \<and> weights (\<lambda>x. if x ! 0 < 1 then 1/4 else 3/4)
       (testing_sample_mc (assemble 2 (\<lambda>i. real i) (\<lambda>_. 0) (\<lambda>i. 2 + real i) (\<lambda>_. 0) (\<lambda>_. 0)))
     = [Fin 3]"
proof -
  let ?s = "assemble 2 (\<lambda>i. real i) (\<lambda>_. 0) (\<lambda>i. 2 + real i) (\<lambda>_. 0) (\<lambda>_. 0)"
  let ?cM = "\<lambda>x::real list. if x ! 0 < 1 then 1/4 else (3/4::real)"
  let ?cD = "\<lambda>x::real list. if x ! 0 < 1 then 3/4 else (1/4::real)"
  have y: "Y_train ?s = [1, 0]" by (simp add: Y_train_def distinct_training)
  have x: "X_train ?s = [[27/10, 3/10], [0, 0]]" by (simp add: X_train_def distinct_training)
  have lab: "\<forall>r \<in> set (training_sample ?s). last r = 0 \<or> last r = 1"
    by (rule training_labels)
  have up: "\<forall>r \<in> set (training_sample ?s). last r = 1 \<longrightarrow> ?cD (butlast r) \<le> ?cM (butlast r)"
    by (simp add: distinct_training)
  have down: "\<forall>r \<in> set (training_sample ?s). last r = 0 \<longrightarrow> ?cM (butlast r) \<le> ?cD (butlast r)"
    by (simp add: distinct_training)
  have m: "[27/10, 3/10, 1] \<in> set (training_sample ?s)" by (simp add: distinct_training)
  have st: "(last [27/10, 3/10, 1::real] = 1 \<and> epsilon \<le> ?cD (butlast [27/10, 3/10, 1])
      \<and> ?cD (butlast [27/10, 3/10, 1]) < ?cM (butlast [27/10, 3/10, 1])
      \<and> ?cM (butlast [27/10, 3/10, 1]) \<le> 1 - epsilon)
    \<or> (last [27/10, 3/10, 1::real] = 0 \<and> epsilon \<le> ?cM (butlast [27/10, 3/10, 1])
      \<and> ?cM (butlast [27/10, 3/10, 1]) < ?cD (butlast [27/10, 3/10, 1])
      \<and> ?cD (butlast [27/10, 3/10, 1]) \<le> 1 - epsilon)"
    by (simp add: epsilon_def)
  have l: "fit_loss ?cM ?s < fit_loss ?cD ?s"
    using lab up down m st by (rule fit_loss_strict)
  have w: "weights ?cM (testing_sample_mc ?s) = [Fin 3]"
    by (simp add: distinct_testing_mc weights_def predict_def weight_def)
  show ?thesis using y x l w by (intro conjI)
qed

section \<open>Reweighting with a calibrated classifier\<close>









section \<open>Properties of single-precision rounding\<close>

lemma rne_int: "rne (of_int n) = n"
  by (simp add: rne_def)

lemma rne_floor: "\<lfloor>q\<rfloor> \<le> rne q" "rne q \<le> \<lfloor>q\<rfloor> + 1"
  by (simp_all add: rne_def Let_def)

lemma rne_mono:
  assumes "q \<le> q'"
  shows "rne q \<le> rne q'"
proof (cases "\<lfloor>q\<rfloor> = \<lfloor>q'\<rfloor>")
  case True
  then show ?thesis using assms by (auto simp add: rne_def Let_def)
next
  case False
  then have "\<lfloor>q\<rfloor> < \<lfloor>q'\<rfloor>" using assms floor_mono [of q q'] by linarith
  then have "rne q \<le> \<lfloor>q'\<rfloor>" using rne_floor(2) [of q] by linarith
  then show ?thesis using rne_floor(1) [of q'] by linarith
qed

lemma rne_near:
  assumes "\<bar>q - of_int n\<bar> < 1/2"
  shows "rne q = n"
proof -
  have "\<lfloor>q\<rfloor> = n \<or> \<lfloor>q\<rfloor> = n - 1" using assms by linarith
  then show ?thesis
  proof
    assume f: "\<lfloor>q\<rfloor> = n"
    then have "q - of_int \<lfloor>q\<rfloor> < 1/2" using assms by linarith
    then show ?thesis using f by (simp add: rne_def Let_def)
  next
    assume f: "\<lfloor>q\<rfloor> = n - 1"
    then have "real_of_int \<lfloor>q\<rfloor> = of_int n - 1" by simp
    then have "1/2 < q - of_int \<lfloor>q\<rfloor>" using assms by linarith
    then show ?thesis using f by (simp add: rne_def Let_def)
  qed
qed

lemma two_powi_pos: "0 < (2::real) powi k"
  by (simp add: zero_less_power_int)

lemma two_powi_shift: "(2::real) powi (k + j) = 2 powi k * 2 powi j"
  by (simp add: power_int_add)

lemma powr_powi: "(2::real) powr real_of_int k = 2 powi k"
  by (simp add: powr_real_of_int')

lemma powr_powi1: "(2::real) powr (real_of_int k + 1) = 2 powi (k + 1)"
  using powr_powi [of "k + 1"] by simp

lemma log2_floor_bounds:
  fixes x :: real
  assumes "0 < x"
  shows "2 powi \<lfloor>log 2 x\<rfloor> \<le> x" "x < 2 powi (\<lfloor>log 2 x\<rfloor> + 1)"
proof -
  have "2 powr real_of_int \<lfloor>log 2 x\<rfloor> \<le> x \<and> x < 2 powr real_of_int (\<lfloor>log 2 x\<rfloor> + 1)"
    using floor_log_eq_powr_iff [of x 2 "\<lfloor>log 2 x\<rfloor>"] assms by simp
  then show "2 powi \<lfloor>log 2 x\<rfloor> \<le> x" "x < 2 powi (\<lfloor>log 2 x\<rfloor> + 1)"
    by (simp_all add: powr_powi powr_powi1)
qed

lemma log2_floor_eq:
  fixes x :: real
  assumes "2 powi e \<le> x" "x < 2 powi (e + 1)"
  shows "\<lfloor>log 2 x\<rfloor> = e"
proof -
  have "0 < x" using assms(1) two_powi_pos [of e] by linarith
  then show ?thesis
    using floor_log_eq_powr_iff [of x 2 e] assms by (simp add: powr_powi powr_powi1)
qed

lemma ulp_exp_eq:
  fixes x :: real
  assumes "2 powi e \<le> x" "x < 2 powi (e + 1)"
  shows "ulp_exp x = max (e - 23) (- 149)"
proof -
  have "0 < x" using assms(1) two_powi_pos [of e] by linarith
  then have "\<bar>x\<bar> = x" by simp
  then show ?thesis using log2_floor_eq [OF assms] by (simp add: ulp_exp_def)
qed

lemma ulp_exp_mono:
  fixes x y :: real
  assumes "0 < x" "x \<le> y"
  shows "ulp_exp x \<le> ulp_exp y"
proof -
  have "log 2 x \<le> log 2 y" using assms by simp
  then have "\<lfloor>log 2 x\<rfloor> \<le> \<lfloor>log 2 y\<rfloor>" by (rule floor_mono)
  then show ?thesis using assms by (simp add: ulp_exp_def)
qed

lemma ulp_exp_low: "- 149 \<le> ulp_exp x"
  by (simp add: ulp_exp_def)

lemma rne_nonneg: "0 \<le> q \<Longrightarrow> 0 \<le> rne q"
  using rne_mono [of 0 q] rne_int [of 0] by simp

lemma round_value_nonneg:
  assumes "0 \<le> x"
  shows "0 \<le> round_value x"
proof -
  have "0 \<le> x / 2 powi ulp_exp x" using assms two_powi_pos [of "ulp_exp x"] by simp
  then have "0 \<le> rne (x / 2 powi ulp_exp x)" by (rule rne_nonneg)
  then show ?thesis using two_powi_pos [of "ulp_exp x"] by (simp add: round_value_def)
qed

lemma round_value_upper:
  fixes x :: real
  assumes "0 < x"
  shows "round_value x \<le> 2 powi (ulp_exp x + 24)"
proof -
  let ?k = "ulp_exp x"
  let ?e = "\<lfloor>log 2 x\<rfloor>"
  have ax: "\<bar>x\<bar> = x" using assms by simp
  have "?e - 23 \<le> ?k" by (simp add: ulp_exp_def ax)
  then have "?e + 1 \<le> ?k + 24" by simp
  then have "(2::real) powi (?e + 1) \<le> 2 powi (?k + 24)" by (simp add: power_int_increasing)
  then have "x \<le> 2 powi (?k + 24)" using log2_floor_bounds(2) [OF assms] by linarith
  then have "x \<le> 2 powi ?k * 2 powi 24" by (simp only: two_powi_shift)
  then have q: "x / 2 powi ?k \<le> 2 powi 24"
    using two_powi_pos [of ?k] by (simp add: pos_divide_le_eq mult.commute)
  have p: "(2::real) powi 24 = of_int (2 ^ 24)" by simp
  have "rne (x / 2 powi ?k) \<le> rne (of_int (2 ^ 24))"
    using q unfolding p by (rule rne_mono)
  then have "rne (x / 2 powi ?k) \<le> 2 ^ 24" by (simp only: rne_int)
  then have "real_of_int (rne (x / 2 powi ?k)) \<le> 2 powi 24" by (simp add: of_int_le_iff [symmetric] del: of_int_le_iff)
  then have "real_of_int (rne (x / 2 powi ?k)) * 2 powi ?k \<le> 2 powi 24 * 2 powi ?k"
    using two_powi_pos [of ?k] by (simp only: mult_right_mono less_imp_le)
  then show ?thesis by (simp only: round_value_def two_powi_shift mult.commute)
qed

lemma round_value_lower:
  fixes y :: real
  assumes "0 < y" "- 149 < ulp_exp y"
  shows "2 powi (ulp_exp y + 23) \<le> round_value y"
proof -
  let ?k = "ulp_exp y"
  let ?e = "\<lfloor>log 2 y\<rfloor>"
  have ay: "\<bar>y\<bar> = y" using assms by simp
  have "?k = ?e - 23" using assms(2) by (simp add: ulp_exp_def ay max_def split: if_splits)
  then have e: "?e = ?k + 23" by simp
  have "2 powi (?k + 23) \<le> y" using log2_floor_bounds(1) [OF assms(1)] by (simp only: e [symmetric])
  then have "2 powi ?k * 2 powi 23 \<le> y" by (simp only: two_powi_shift)
  then have q: "2 powi 23 \<le> y / 2 powi ?k"
    using two_powi_pos [of ?k] by (simp add: pos_le_divide_eq mult.commute)
  have p: "(2::real) powi 23 = of_int (2 ^ 23)" by simp
  have "rne (of_int (2 ^ 23)) \<le> rne (y / 2 powi ?k)"
    using q unfolding p by (rule rne_mono)
  then have "2 ^ 23 \<le> rne (y / 2 powi ?k)" by (simp only: rne_int)
  then have "2 powi 23 \<le> real_of_int (rne (y / 2 powi ?k))" by (simp add: of_int_le_iff [symmetric] del: of_int_le_iff)
  then have "2 powi 23 * 2 powi ?k \<le> real_of_int (rne (y / 2 powi ?k)) * 2 powi ?k"
    using two_powi_pos [of ?k] by (simp only: mult_right_mono less_imp_le)
  then show ?thesis by (simp only: round_value_def two_powi_shift mult.commute)
qed

lemma round_value_mono:
  fixes x y :: real
  assumes "0 < x" "x \<le> y"
  shows "round_value x \<le> round_value y"
proof (cases "ulp_exp x = ulp_exp y")
  case True
  let ?u = "(2::real) powi ulp_exp y"
  have "x / ?u \<le> y / ?u" using assms(2) two_powi_pos [of "ulp_exp y"] by (simp add: divide_right_mono)
  then have "rne (x / ?u) \<le> rne (y / ?u)" by (rule rne_mono)
  then have "real_of_int (rne (x / ?u)) * ?u \<le> real_of_int (rne (y / ?u)) * ?u"
    using two_powi_pos [of "ulp_exp y"] by (simp add: mult_right_mono)
  then show ?thesis by (simp add: round_value_def True)
next
  case False
  have y: "0 < y" using assms by linarith
  have "ulp_exp x \<le> ulp_exp y" using assms by (rule ulp_exp_mono)
  then have lt: "ulp_exp x < ulp_exp y" using False by simp
  then have "- 149 < ulp_exp y" using ulp_exp_low [of x] by linarith
  then have low: "2 powi (ulp_exp y + 23) \<le> round_value y" using y by (intro round_value_lower)
  have up: "round_value x \<le> 2 powi (ulp_exp x + 24)" using assms(1) by (rule round_value_upper)
  have "ulp_exp x + 24 \<le> ulp_exp y + 23" using lt by simp
  then have "(2::real) powi (ulp_exp x + 24) \<le> 2 powi (ulp_exp y + 23)"
    by (simp add: power_int_increasing)
  then show ?thesis using low up by linarith
qed

lemma round_value_eq:
  fixes x :: real
  assumes "2 powi e \<le> x" "x < 2 powi (e + 1)"
    and "\<bar>x / 2 powi (max (e - 23) (- 149)) - of_int N\<bar> < 1/2"
  shows "round_value x = of_int N * 2 powi (max (e - 23) (- 149))"
proof -
  have k: "ulp_exp x = max (e - 23) (- 149)" using assms(1,2) by (rule ulp_exp_eq)
  have "rne (x / 2 powi (max (e - 23) (- 149))) = N" using assms(3) by (rule rne_near)
  then show ?thesis by (simp add: round_value_def k)
qed

lemma round32_pos:
  assumes "0 < x"
  shows "round32 x = (if 2 ^ 128 \<le> round_value x then PInf else Fin (round_value x))"
proof -
  have "0 \<le> round_value x" using assms by (intro round_value_nonneg) simp
  then show ?thesis using assms by (auto simp add: round32_def Let_def)
qed

lemma round32_eq:
  fixes x :: real
  assumes "2 powi e \<le> x" "x < 2 powi (e + 1)"
    and "\<bar>x / 2 powi (max (e - 23) (- 149)) - of_int N\<bar> < 1/2"
    and "of_int N * 2 powi (max (e - 23) (- 149)) < (2::real) ^ 128"
  shows "round32 x = Fin (of_int N * 2 powi (max (e - 23) (- 149)))"
proof -
  have "0 < x" using assms(1) two_powi_pos [of e] by linarith
  then show ?thesis
    using round_value_eq [OF assms(1,2,3)] assms(4) by (simp add: round32_pos)
qed

lemma is_f32I:
  fixes x :: real
  assumes "2 powi e \<le> x" "x < 2 powi (e + 1)"
    and "x = of_int N * 2 powi (max (e - 23) (- 149))" "x < 2 ^ 128"
  shows "is_f32 x"
proof -
  have "x / 2 powi (max (e - 23) (- 149)) = of_int N"
    using assms(3) two_powi_pos [of "max (e - 23) (- 149)"] by simp
  then have "\<bar>x / 2 powi (max (e - 23) (- 149)) - of_int N\<bar> < 1/2" by simp
  then have "round32 x = Fin (of_int N * 2 powi (max (e - 23) (- 149)))"
    using assms by (intro round32_eq) simp_all
  then show ?thesis using assms(3) by (simp add: is_f32_def)
qed

lemma round32_mono:
  assumes "0 \<le> x" "x \<le> y" "round32 y = Fin vy"
  shows "\<exists>vx. round32 x = Fin vx \<and> 0 \<le> vx \<and> vx \<le> vy"
proof (cases "x = 0")
  case True
  have "0 \<le> vy"
  proof (cases "y = 0")
    case True
    then show ?thesis using assms(3) by (simp add: round32_def)
  next
    case False
    then have y: "0 < y" using assms by linarith
    then have "0 \<le> round_value y" by (intro round_value_nonneg) simp
    then show ?thesis using assms(3) y by (simp add: round32_pos split: if_splits)
  qed
  then show ?thesis using True by (simp add: round32_def)
next
  case False
  then have x: "0 < x" using assms(1) by simp
  then have y: "0 < y" using assms(2) by linarith
  have vy: "round_value y < 2 ^ 128" "vy = round_value y"
    using assms(3) y by (simp_all add: round32_pos split: if_splits)
  have le: "round_value x \<le> round_value y" using x assms(2) by (rule round_value_mono)
  then have "round32 x = Fin (round_value x)" using x vy(1) by (simp add: round32_pos)
  moreover have "0 \<le> round_value x" using x by (intro round_value_nonneg) simp
  ultimately show ?thesis using le vy(2) by simp
qed


lemma is_f32_one: "is_f32 1"
  by (rule is_f32I [where e = 0 and N = "2 ^ 23"]) (simp_all add: power_int_minus)

lemma is_f32_half: "is_f32 (1/2)"
  by (rule is_f32I [where e = "- 1" and N = "2 ^ 23"]) (simp_all add: power_int_minus)

lemma is_f32_ulp_one: "is_f32 (1 / 16777216)"
  by (rule is_f32I [where e = "- 24" and N = "2 ^ 23"]) (simp_all add: power_int_minus)

lemma is_f32_largest_weight: "is_f32 16777215"
  by (rule is_f32I [where e = 23 and N = 16777215]) (simp_all add: power_int_minus)


lemma is_f32_smallest: "is_f32 (2 powi (- 149))"
  by (rule is_f32I [where e = "- 149" and N = 1]) (simp_all add: power_int_minus)

lemma f32_grid:
  assumes "is_f32 x" "x \<noteq> 0"
  shows "x = of_int (rne (x / 2 powi ulp_exp x)) * 2 powi ulp_exp x"
  using assms by (simp add: is_f32_def round32_def round_value_def Let_def split: if_splits)

lemma f32_min_pos:
  assumes "is_f32 y" "0 < y"
  shows "2 powi (- 149) \<le> y"
proof -
  let ?u = "(2::real) powi ulp_exp y"
  let ?n = "rne (y / ?u)"
  have g: "y = of_int ?n * ?u" using assms by (intro f32_grid) simp_all
  have u: "0 < ?u" by (rule two_powi_pos)
  have "0 < real_of_int ?n * ?u" using assms(2) g by simp
  then have "0 < real_of_int ?n" using u by (simp add: zero_less_mult_iff)
  then have "1 \<le> ?n" by simp
  then have "1 \<le> real_of_int ?n" by simp
  then have "1 * ?u \<le> real_of_int ?n * ?u" using u by (simp only: mult_right_mono less_imp_le)
  then have "?u \<le> y" using g by simp
  moreover have "(2::real) powi (- 149) \<le> ?u"
    by (rule power_int_increasing [OF ulp_exp_low]) simp
  ultimately show ?thesis by linarith
qed

lemma f32_below_one:
  assumes "is_f32 y" "y < 1"
  shows "y \<le> 16777215 / 16777216"
proof (cases "y < 1/2")
  case True
  then show ?thesis by simp
next
  case False
  then have lo: "2 powi (- 1) \<le> y" by (simp add: power_int_minus)
  have hi: "y < 2 powi (- 1 + 1)" using assms(2) by simp
  have k: "ulp_exp y = - 24" using ulp_exp_eq [OF lo hi] by simp
  let ?n = "rne (y / 2 powi (- 24))"
  have "y \<noteq> 0" using False by simp
  then have g: "y = of_int ?n * 2 powi (- 24)" using f32_grid [OF assms(1)] by (simp add: k)
  then have g': "y = real_of_int ?n / 16777216" by (simp add: power_int_minus field_simps)
  then have "real_of_int ?n < 16777216" using assms(2) by simp
  then have "?n < 16777216" by linarith
  then have "?n \<le> 16777215" by simp
  then have "real_of_int ?n \<le> 16777215" by linarith
  then show ?thesis using g' by (simp add: divide_right_mono)
qed


section \<open>The weights in single precision\<close>

lemma round32_f32: "is_f32 x \<Longrightarrow> round32 x = Fin x"
  by (simp add: is_f32_def)

lemma one_minus_rounded:
  assumes "is_f32 y" "0 \<le> y" "y < 1"
  shows "\<exists>dv. round32 (1 - y) = Fin dv \<and> 1 / 16777216 \<le> dv \<and> dv \<le> 1"
proof -
  have "0 \<le> 1 - y" "1 - y \<le> 1" using assms by simp_all
  then obtain dv where dv: "round32 (1 - y) = Fin dv" "dv \<le> 1"
    using round32_mono [of "1 - y" 1 1] round32_f32 [OF is_f32_one] by blast
  have "y \<le> 16777215 / 16777216" using assms(1,3) by (rule f32_below_one)
  then have "1 / 16777216 \<le> 1 - y" by simp
  then obtain vx where "round32 (1 / 16777216) = Fin vx" "vx \<le> dv"
    using round32_mono [of "1 / 16777216" "1 - y" dv] dv(1) by auto
  then have "1 / 16777216 \<le> dv" using round32_f32 [OF is_f32_ulp_one] by simp
  then show ?thesis using dv by blast
qed

lemma weight32_quotient:
  assumes "round32 (1 - y) = Fin dv" "dv \<noteq> 0"
  shows "weight32 y = round32 (y / dv)"
  using assms by (simp add: weight32_def)

lemma weight32_finite:
  assumes "is_f32 y" "0 \<le> y" "y < 1"
  shows "\<exists>w. weight32 y = Fin w \<and> 0 \<le> w \<and> w \<le> 16777215 \<and> (0 < y \<longrightarrow> 2 powi (- 149) \<le> w)"
proof -
  obtain dv where dv: "round32 (1 - y) = Fin dv" "1 / 16777216 \<le> dv" "dv \<le> 1"
    using one_minus_rounded [OF assms] by blast
  have dpos: "0 < dv" using dv(2) by simp
  have q: "weight32 y = round32 (y / dv)" using dv(1) dpos by (intro weight32_quotient) simp_all
  have q0: "0 \<le> y / dv" using assms(2) dpos by simp
  have "y \<le> 16777215 / 16777216" using assms(1,3) by (rule f32_below_one)
  then have "y * 16777216 \<le> 16777215" by simp
  moreover have "y / dv \<le> y / (1 / 16777216)"
    using assms(2) dv(2) by (intro divide_left_mono) simp_all
  ultimately have q1: "y / dv \<le> 16777215" by simp
  obtain w where w: "round32 (y / dv) = Fin w" "0 \<le> w" "w \<le> 16777215"
    using round32_mono [OF q0 q1 round32_f32 [OF is_f32_largest_weight]] by blast
  have "2 powi (- 149) \<le> w" if "0 < y"
  proof -
    have "2 powi (- 149) \<le> y" using assms(1) that by (rule f32_min_pos)
    moreover have "y \<le> y / dv" using assms(2) dpos dv(3) by (simp add: pos_le_divide_eq mult_left_le)
    ultimately have "2 powi (- 149) \<le> y / dv" by linarith
    moreover have "(0::real) \<le> 2 powi (- 149)" using two_powi_pos [of "- 149"] by simp
    ultimately obtain vx where "round32 (2 powi (- 149)) = Fin vx" "vx \<le> w"
      using round32_mono [of "2 powi (- 149)" "y / dv" w] w(1) by blast
    then show ?thesis using round32_f32 [OF is_f32_smallest] by simp
  qed
  then show ?thesis using q w by auto
qed



lemma weight32_half: "weight32 (1/2) = Fin 1"
  using round32_f32 [OF is_f32_half] round32_f32 [OF is_f32_one] by (simp add: weight32_def)









section \<open>Positivity of the weights\<close>

lemma inverse_rounded:
  assumes "0 < w" "w \<le> 16777215"
  shows "round32 (1 / w) = PInf \<or> (\<exists>v. round32 (1 / w) = Fin v \<and> 0 < v)"
proof -
  have p: "0 < 1 / w" using assms(1) by simp
  show ?thesis
  proof (cases "2 ^ 128 \<le> round_value (1 / w)")
    case True
    then show ?thesis using p by (simp add: round32_pos)
  next
    case False
    then have r: "round32 (1 / w) = Fin (round_value (1 / w))" using p by (simp add: round32_pos)
    have "1 / 16777216 \<le> 1 / w" using assms by (intro divide_left_mono) simp_all
    then obtain vx where "round32 (1 / 16777216) = Fin vx" "vx \<le> round_value (1 / w)"
      using round32_mono [of "1 / 16777216" "1 / w"] r by auto
    then have "1 / 16777216 \<le> round_value (1 / w)" using round32_f32 [OF is_f32_ulp_one] by simp
    then have "0 < round_value (1 / w)" by simp
    then show ?thesis using r by blast
  qed
qed

text \<open>
  Claim C10. For every classifier output strictly between 0 and 1, a binary32 number as
  \<^verbatim>\<open>predict\<close> returns it, the weight the cell computes is a finite, strictly positive
  number. So the histogram weight \<open>1 / w\<close> divides by no zero: it is the rounded
  quotient \<open>1 / w\<close>, and it is strictly positive, a finite positive number or, where
  the quotient overflows single precision, numpy's positive infinity.
\<close>

theorem weights_positive:
  assumes "\<forall>r \<in> set tmc. is_f32 (classifier (butlast r))
             \<and> 0 < classifier (butlast r) \<and> classifier (butlast r) < 1"
  shows "\<forall>i < length tmc. \<exists>w. weights32 classifier tmc ! i = Fin w \<and> 0 < w
           \<and> inv_weights32 (weights32 classifier tmc) ! i = round32 (1 / w)
           \<and> (inv_weights32 (weights32 classifier tmc) ! i = PInf
              \<or> (\<exists>v. inv_weights32 (weights32 classifier tmc) ! i = Fin v \<and> 0 < v))"
proof (intro allI impI)
  fix i
  assume i: "i < length tmc"
  let ?y = "classifier (butlast (tmc ! i))"
  have y: "is_f32 ?y" "0 < ?y" "?y < 1" using assms i by simp_all
  have y0: "0 \<le> ?y" using y(2) by simp
  obtain w where w: "weight32 ?y = Fin w" "w \<le> 16777215" "2 powi (- 149) \<le> w"
    using weight32_finite [OF y(1) y0 y(3)] y(2) by blast
  have wp: "0 < w" using w(3) two_powi_pos [of "- 149"] by linarith
  have wi: "weights32 classifier tmc ! i = Fin w"
    using i w(1) by (simp add: weights32_def predict_def)
  have "inv_weights32 (weights32 classifier tmc) ! i = f32 (np_divide (Fin 1) (Fin w))"
    using i wi by (simp add: inv_weights32_def weights32_def predict_def)
  then have iv: "inv_weights32 (weights32 classifier tmc) ! i = round32 (1 / w)"
    using wp by simp
  show "\<exists>w. weights32 classifier tmc ! i = Fin w \<and> 0 < w
           \<and> inv_weights32 (weights32 classifier tmc) ! i = round32 (1 / w)
           \<and> (inv_weights32 (weights32 classifier tmc) ! i = PInf
              \<or> (\<exists>v. inv_weights32 (weights32 classifier tmc) ! i = Fin v \<and> 0 < v))"
    using wi wp iv inverse_rounded [OF wp w(2)] by auto
qed

lemma smallest_output:
  "weight32 (2 powi (- 149)) = Fin (2 powi (- 149))"
  "round32 (1 / 2 powi (- 149)) = PInf"
proof -
  have d: "round32 (1 - 2 powi (- 149)) = Fin 1"
    using round32_eq [where x = "1 - 2 powi (- 149)" and e = "- 1" and N = 16777216]
    by (simp add: power_int_minus)
  show "weight32 (2 powi (- 149)) = Fin (2 powi (- 149))"
    using weight32_quotient [OF d] round32_f32 [OF is_f32_smallest] by simp
  have e: "(1::real) / 2 powi (- 149) = 2 ^ 149" by (simp add: power_int_minus)
  have v: "round_value (2 ^ 149) = of_int (2 ^ 23) * 2 powi (max (149 - 23) (- 149))"
    by (rule round_value_eq) simp_all
  have p: "(0::real) < 2 ^ 149" by simp
  have "round32 (2 ^ 149) = PInf"
    using v round32_pos [OF p] by simp
  then show "round32 (1 / 2 powi (- 149)) = PInf" by (simp only: e)
qed

theorem weights_positive_witness:
  "weights32 (\<lambda>_. 1/2) [[0, 0, 1]] ! 0 = Fin 1
   \<and> inv_weights32 (weights32 (\<lambda>_. 1/2) [[0, 0, 1]]) ! 0 = Fin 1
   \<and> weights32 (\<lambda>_. 2 powi (- 149)) [[0, 0, 1]] ! 0 = Fin (2 powi (- 149))
   \<and> inv_weights32 (weights32 (\<lambda>_. 2 powi (- 149)) [[0, 0, 1]]) ! 0 = PInf"
proof -
  have h1: "\<forall>r \<in> set [[0, 0, 1::real]]. is_f32 ((\<lambda>_. 1/2) (butlast r))
      \<and> (0::real) < (\<lambda>_. 1/2) (butlast r) \<and> (\<lambda>_. 1/2 :: real) (butlast r) < 1"
    using is_f32_half by simp
  have h2: "\<forall>r \<in> set [[0, 0, 1::real]]. is_f32 ((\<lambda>_. 2 powi (- 149)) (butlast r))
      \<and> (0::real) < (\<lambda>_. 2 powi (- 149)) (butlast r) \<and> (\<lambda>_. 2 powi (- 149) :: real) (butlast r) < 1"
    using is_f32_smallest by (simp add: power_int_minus)
  have a: "weights32 (\<lambda>_. 1/2) [[0, 0, 1]] ! 0 = Fin 1
      \<and> inv_weights32 (weights32 (\<lambda>_. 1/2) [[0, 0, 1]]) ! 0 = Fin 1"
    using weights_positive [OF h1] weight32_half round32_f32 [OF is_f32_one]
    by (simp add: weights32_def predict_def inv_weights32_def)
  have b: "weights32 (\<lambda>_. 2 powi (- 149)) [[0, 0, 1]] ! 0 = Fin (2 powi (- 149))
      \<and> inv_weights32 (weights32 (\<lambda>_. 2 powi (- 149)) [[0, 0, 1]]) ! 0 = PInf"
    using weights_positive [OF h2] smallest_output two_powi_pos [of "- 149"]
    by (simp add: weights32_def predict_def inv_weights32_def)
  show ?thesis using a b by simp
qed

end
